theory Spec2Isabelle
  imports Main
begin

section \<open>Python string operations used by the parser\<close>

text \<open>
  The parser of \<^verbatim>\<open>NaturalLanguageToJSONFlowParser.py\<close> uses three operations of
  Python's \<^verbatim>\<open>str\<close>: \<^verbatim>\<open>lower()\<close>, \<^verbatim>\<open>capitalize()\<close> and the substring test
  \<^verbatim>\<open>sub in s\<close>. Strings are modelled as \<^typ>\<open>string\<close>; case conversion is the ASCII
  one (letters A-Z and a-z), every other character is left as it is.
\<close>

definition lower_char :: "char \<Rightarrow> char" where
  "lower_char c =
     (case map_of (zip ''ABCDEFGHIJKLMNOPQRSTUVWXYZ'' ''abcdefghijklmnopqrstuvwxyz'') c of
        Some d \<Rightarrow> d
      | None \<Rightarrow> c)"

definition upper_char :: "char \<Rightarrow> char" where
  "upper_char c =
     (case map_of (zip ''abcdefghijklmnopqrstuvwxyz'' ''ABCDEFGHIJKLMNOPQRSTUVWXYZ'') c of
        Some d \<Rightarrow> d
      | None \<Rightarrow> c)"

definition lower :: "string \<Rightarrow> string" where
  "lower s = map lower_char s"

text \<open>\<^verbatim>\<open>s.capitalize()\<close>: first character upper case, the rest lower case.\<close>

definition capitalize :: "string \<Rightarrow> string" where
  "capitalize s = (case s of [] \<Rightarrow> [] | c # cs \<Rightarrow> upper_char c # map lower_char cs)"

text \<open>\<^verbatim>\<open>sub in s\<close>: \<open>sub\<close> occurs in \<open>s\<close> as a contiguous block.\<close>

fun contains :: "string \<Rightarrow> string \<Rightarrow> bool" where
  "contains sub [] = (sub = [])"
| "contains sub (c # cs) = (take (length sub) (c # cs) = sub \<or> contains sub cs)"

section \<open>The linguistic annotator\<close>

text \<open>
  The annotator (spaCy's \<^verbatim>\<open>nlp\<close>) is external. The parser reads of a token its
  \<^verbatim>\<open>text\<close>, \<^verbatim>\<open>lemma_\<close>, \<^verbatim>\<open>pos_\<close>, \<^verbatim>\<open>dep_\<close>, and of its \<^verbatim>\<open>head\<close> token only
  \<^verbatim>\<open>head.text\<close> and \<^verbatim>\<open>head.pos_\<close>; of a sentence its \<^verbatim>\<open>text\<close> and its tokens;
  of a document its sentences (\<^verbatim>\<open>doc.sents\<close>) and, by iteration, all tokens in
  order. The annotator itself is a parameter \<open>nlp\<close> of every function that calls it.
\<close>

record head_ref =
  h_text :: string
  h_pos :: string

record token =
  t_text :: string
  t_lemma :: string
  t_pos :: string
  t_dep :: string
  t_head :: head_ref

record sent =
  s_text :: string
  s_tokens :: "token list"

type_synonym doc = "sent list"

type_synonym annotator = "string \<Rightarrow> doc"

text \<open>\<^verbatim>\<open>for token in doc\<close>: the tokens of all sentences, in document order.\<close>

definition doc_tokens :: "doc \<Rightarrow> token list" where
  "doc_tokens d = concat (map s_tokens d)"

section \<open>The function name\<close>

text \<open>
  \<^verbatim>\<open>_generate_function_name\<close>: two nested loops with a \<^verbatim>\<open>return\<close> at the first
  verb whose lemma is one of the four; \<open>None\<close> is "the loop ran to its end".
\<close>

fun name_in_tokens :: "token list \<Rightarrow> string option" where
  "name_in_tokens [] = None"
| "name_in_tokens (t # ts) =
     (if t_pos t = ''VERB'' \<and> t_lemma t \<in> set [''create'', ''build'', ''define'', ''generate'']
      then Some (capitalize (t_text t) @ ''Workflow'')
      else name_in_tokens ts)"

fun name_in_sents :: "sent list \<Rightarrow> string option" where
  "name_in_sents [] = None"
| "name_in_sents (s # ss) =
     (case name_in_tokens (s_tokens s) of
        Some n \<Rightarrow> Some n
      | None \<Rightarrow> name_in_sents ss)"

definition generate_function_name :: "doc \<Rightarrow> string" where
  "generate_function_name d =
     (case name_in_sents d of Some n \<Rightarrow> n | None \<Rightarrow> ''DefaultWorkflow'')"

section \<open>The schema, the step templates and the parser object\<close>

text \<open>
  A value of a step is either the token string itself or \<^verbatim>\<open>{"get": name}\<close>.
\<close>

datatype value_ref = Lit string | Get string

text \<open>
  \<^verbatim>\<open>__init__\<close> builds \<^verbatim>\<open>self.step_templates\<close>: for each of the keys \<^verbatim>\<open>"set"\<close>,
  \<^verbatim>\<open>"assert"\<close>, \<^verbatim>\<open>"log"\<close>, \<^verbatim>\<open>"forEach"\<close> an outer dictionary with that one key,
  whose value is the payload dictionary. An extractor takes
  \<^verbatim>\<open>self.step_templates[k].copy()\<close>, a shallow copy: a new outer dictionary whose
  one entry still points to the payload dictionary of the template, and then assigns
  into \<^verbatim>\<open>step[k][...]\<close>, that is, into that payload dictionary. So the model has an
  explicit store with one cell per payload dictionary that \<^verbatim>\<open>__init__\<close> creates, and
  a step (an outer dictionary) is its key together with the address of the cell
  its entry points to. Outer dictionaries are never assigned to after the copy, so they
  are values. The dictionaries \<^verbatim>\<open>"condition"\<close> and \<^verbatim>\<open>"compare"\<close> nested in the assert
  payload are created once, never replaced and reached only through it, so they are
  nested records of the same cell.
\<close>

datatype cell = SetCell | AssertCell | LogCell | ForEachCell

record step =
  step_key :: string
  step_ref :: cell

record set_payload =
  set_target :: string
  set_value :: value_ref

record compare_payload =
  c_left :: value_ref
  c_op :: string
  c_right :: value_ref

record condition_payload =
  cond_compare :: compare_payload

record assert_payload =
  assert_condition :: condition_payload
  assert_message :: string

record log_payload =
  log_level :: string
  log_message :: "value_ref list"

record foreach_payload =
  fe_source :: string
  fe_as :: string
  fe_body :: "step list"

record store =
  set_cell :: set_payload
  assert_cell :: assert_payload
  log_cell :: log_payload
  forEach_cell :: foreach_payload

record input_decl =
  in_type :: string
  in_description :: string

datatype json = JString string | JArray "json list" | JObject "(string \<times> json) list"

text \<open>
  The parser object: the parts of \<^verbatim>\<open>self.schema\<close> (\<^verbatim>\<open>"function"\<close>,
  \<^verbatim>\<open>"schema"."inputs"\<close>, \<^verbatim>\<open>"schema"."context"\<close>, \<^verbatim>\<open>"context"\<close>, \<^verbatim>\<open>"steps"\<close>) and the
  store of the payload dictionaries.
\<close>

record parser =
  p_function :: string
  p_inputs :: "string \<rightharpoonup> input_decl"
  p_schema_context :: "string \<rightharpoonup> string"
  p_context :: "string \<rightharpoonup> json"
  p_steps :: "step list"
  p_store :: store

definition variable_types :: "string list" where
  "variable_types = [''string'', ''int'', ''dict'', ''array'', ''bool'']"

definition comparison_ops :: "string list" where
  "comparison_ops = [''=='', ''!='', ''>'', ''<'', ''>='', ''<='', ''in'']"

text \<open>The outer dictionaries of \<^verbatim>\<open>self.step_templates\<close>, and their shallow copies.\<close>

definition set_template :: step where
  "set_template = \<lparr>step_key = ''set'', step_ref = SetCell\<rparr>"

definition assert_template :: step where
  "assert_template = \<lparr>step_key = ''assert'', step_ref = AssertCell\<rparr>"

definition log_template :: step where
  "log_template = \<lparr>step_key = ''log'', step_ref = LogCell\<rparr>"

definition forEach_template :: step where
  "forEach_template = \<lparr>step_key = ''forEach'', step_ref = ForEachCell\<rparr>"

text \<open>\<^verbatim>\<open>JSONFlowParser.__init__\<close>.\<close>

definition init_store :: store where
  "init_store =
     \<lparr>set_cell = \<lparr>set_target = '''', set_value = Lit ''''\<rparr>,
      assert_cell =
        \<lparr>assert_condition =
           \<lparr>cond_compare = \<lparr>c_left = Lit '''', c_op = '''', c_right = Lit ''''\<rparr>\<rparr>,
         assert_message = ''''\<rparr>,
      log_cell = \<lparr>log_level = ''info'', log_message = []\<rparr>,
      forEach_cell = \<lparr>fe_source = '''', fe_as = '''', fe_body = []\<rparr>\<rparr>"

definition new_parser :: parser where
  "new_parser =
     \<lparr>p_function = '''', p_inputs = Map.empty, p_schema_context = Map.empty,
      p_context = Map.empty, p_steps = [], p_store = init_store\<rparr>"

section \<open>The declaration extractors\<close>

text \<open>
  Each extractor annotates the sentence's text again (\<^verbatim>\<open>nlp(sent.text)\<close>) and runs one
  loop over the tokens, assigning to local variables; the loop is a \<open>foldl\<close> of the
  loop body over the tokens, the local variables are the accumulator. Python's \<^verbatim>\<open>None\<close>
  is \<open>None\<close>; \<^verbatim>\<open>if x:\<close> on a string or \<^verbatim>\<open>None\<close> holds for a non-empty string only.
\<close>

definition input_token ::
  "string option \<times> string \<times> string \<Rightarrow> token \<Rightarrow> string option \<times> string \<times> string" where
  "input_token st t =
     (case st of (input_name, input_type, description) \<Rightarrow>
        if lower (t_text t) = ''input'' \<and> h_pos (t_head t) = ''NOUN''
        then (Some (h_text (t_head t)), input_type, description)
        else if lower (t_text t) \<in> set variable_types
        then (input_name, lower (t_text t), description)
        else if t_dep t = ''attr'' \<or> t_dep t = ''dobj''
        then (input_name, input_type, t_text t)
        else (input_name, input_type, description))"

definition input_scan :: "annotator \<Rightarrow> sent \<Rightarrow> string option \<times> string \<times> string" where
  "input_scan nlp s = foldl input_token (None, ''string'', '''') (doc_tokens (nlp (s_text s)))"

definition parse_input :: "annotator \<Rightarrow> sent \<Rightarrow> parser \<Rightarrow> parser" where
  "parse_input nlp s p =
     (case input_scan nlp s of
        (Some input_name, input_type, description) \<Rightarrow>
          if input_name \<noteq> []
          then p\<lparr>p_inputs := (p_inputs p)(input_name \<mapsto>
                   \<lparr>in_type = input_type,
                    in_description =
                      (if description \<noteq> [] then description else ''Input '' @ input_name)\<rparr>)\<rparr>
          else p
      | (None, input_type, description) \<Rightarrow> p)"

definition context_token :: "string option \<times> string \<Rightarrow> token \<Rightarrow> string option \<times> string" where
  "context_token st t =
     (case st of (var_name, var_type) \<Rightarrow>
        if lower (t_text t) \<in> set [''variable'', ''context''] \<and> h_pos (t_head t) = ''NOUN''
        then (Some (h_text (t_head t)), var_type)
        else if lower (t_text t) \<in> set variable_types
        then (var_name, lower (t_text t))
        else (var_name, var_type))"

definition context_scan :: "annotator \<Rightarrow> sent \<Rightarrow> string option \<times> string" where
  "context_scan nlp s = foldl context_token (None, ''string'') (doc_tokens (nlp (s_text s)))"

definition parse_context :: "annotator \<Rightarrow> sent \<Rightarrow> parser \<Rightarrow> parser" where
  "parse_context nlp s p =
     (case context_scan nlp s of
        (Some var_name, var_type) \<Rightarrow>
          if var_name \<noteq> []
          then p\<lparr>p_schema_context := (p_schema_context p)(var_name \<mapsto> var_type),
                 p_context := (p_context p)(var_name \<mapsto>
                   (if var_type = ''string'' then JString ''''
                    else if var_type = ''array'' then JArray []
                    else JObject []))\<rparr>
          else p
      | (None, var_type) \<Rightarrow> p)"

section \<open>The step extractors\<close>

text \<open>
  A step extractor returns the step (or \<open>None\<close> for Python's \<^verbatim>\<open>None\<close>) and the parser
  object, whose store it has assigned into when it returns a step.
\<close>

definition set_token ::
  "string option \<times> string option \<Rightarrow> token \<Rightarrow> string option \<times> string option" where
  "set_token st t =
     (case st of (target, val) \<Rightarrow>
        if lower (t_text t) \<in> set [''set'', ''assign''] \<and> h_pos (t_head t) = ''NOUN''
        then (Some (h_text (t_head t)), val)
        else if t_dep t = ''attr'' \<or> t_dep t = ''dobj''
        then (target, Some (t_text t))
        else (target, val))"

definition set_scan :: "annotator \<Rightarrow> sent \<Rightarrow> string option \<times> string option" where
  "set_scan nlp s = foldl set_token (None, None) (doc_tokens (nlp (s_text s)))"

definition parse_set_step :: "annotator \<Rightarrow> sent \<Rightarrow> parser \<Rightarrow> step option \<times> parser" where
  "parse_set_step nlp s p =
     (case set_scan nlp s of
        (Some target, Some val) \<Rightarrow>
          if target \<noteq> [] \<and> val \<noteq> []
          then (Some set_template,
                p\<lparr>p_store := (p_store p)\<lparr>set_cell := (set_cell (p_store p))
                   \<lparr>set_target := target,
                    set_value := (if p_inputs p val \<noteq> None then Get val else Lit val)\<rparr>\<rparr>\<rparr>)
          else (None, p)
      | _ \<Rightarrow> (None, p))"

definition assert_token ::
  "string option \<times> string option \<times> string option \<times> string option \<Rightarrow> token \<Rightarrow>
   string option \<times> string option \<times> string option \<times> string option" where
  "assert_token st t =
     (case st of (condition, left, op, right) \<Rightarrow>
        if lower (t_text t) \<in> set [''if'', ''check'']
        then (Some (h_text (t_head t)), left, op, right)
        else if t_dep t = ''nsubj'' \<and> Some (h_text (t_head t)) = condition
        then (condition, Some (t_text t), op, right)
        else if t_text t \<in> set comparison_ops
        then (condition, left, Some (t_text t), right)
        else if t_dep t = ''attr'' \<or> t_dep t = ''dobj''
        then (condition, left, op, Some (t_text t))
        else (condition, left, op, right))"

definition assert_scan ::
  "annotator \<Rightarrow> sent \<Rightarrow> string option \<times> string option \<times> string option \<times> string option" where
  "assert_scan nlp s =
     foldl assert_token (None, None, None, None) (doc_tokens (nlp (s_text s)))"

definition parse_assert_step :: "annotator \<Rightarrow> sent \<Rightarrow> parser \<Rightarrow> step option \<times> parser" where
  "parse_assert_step nlp s p =
     (case assert_scan nlp s of
        (condition, Some left, Some op, Some right) \<Rightarrow>
          if left \<noteq> [] \<and> op \<noteq> [] \<and> right \<noteq> []
          then (Some assert_template,
                p\<lparr>p_store := (p_store p)\<lparr>assert_cell :=
                   \<lparr>assert_condition = \<lparr>cond_compare =
                      \<lparr>c_left = (if p_inputs p left \<noteq> None then Get left else Lit left),
                       c_op = op,
                       c_right = (if p_inputs p right \<noteq> None then Get right else Lit right)\<rparr>\<rparr>,
                    assert_message = left @ '' '' @ op @ '' '' @ right @ '' check failed''\<rparr>\<rparr>\<rparr>)
          else (None, p)
      | _ \<Rightarrow> (None, p))"

definition log_token :: "string list \<Rightarrow> token \<Rightarrow> string list" where
  "log_token message_parts t =
     (if t_dep t \<in> set [''nsubj'', ''dobj'', ''attr'']
      then message_parts @ [t_text t]
      else message_parts)"

definition log_scan :: "annotator \<Rightarrow> sent \<Rightarrow> string list" where
  "log_scan nlp s = foldl log_token [] (doc_tokens (nlp (s_text s)))"

definition parse_log_step :: "annotator \<Rightarrow> sent \<Rightarrow> parser \<Rightarrow> step option \<times> parser" where
  "parse_log_step nlp s p =
     (let message_parts = log_scan nlp s in
      if message_parts \<noteq> []
      then (Some log_template,
            p\<lparr>p_store := (p_store p)\<lparr>log_cell := (log_cell (p_store p))
               \<lparr>log_message :=
                  map (\<lambda>part. if p_inputs p part \<noteq> None then Get part else Lit part)
                    message_parts\<rparr>\<rparr>\<rparr>)
      else (None, p))"

definition foreach_token ::
  "string option \<times> string option \<Rightarrow> token \<Rightarrow> string option \<times> string option" where
  "foreach_token st t =
     (case st of (source, iterator) \<Rightarrow>
        if lower (t_text t) \<in> set [''each'', ''loop''] \<and> h_pos (t_head t) = ''NOUN''
        then (Some (h_text (t_head t)), iterator)
        else if t_dep t = ''nsubj'' \<and> lower (h_text (t_head t)) \<in> set [''each'', ''loop'']
        then (source, Some (t_text t))
        else (source, iterator))"

definition foreach_scan :: "annotator \<Rightarrow> sent \<Rightarrow> string option \<times> string option" where
  "foreach_scan nlp s = foldl foreach_token (None, None) (doc_tokens (nlp (s_text s)))"

definition parse_foreach_step :: "annotator \<Rightarrow> sent \<Rightarrow> parser \<Rightarrow> step option \<times> parser" where
  "parse_foreach_step nlp s p =
     (case foreach_scan nlp s of
        (Some source, Some iterator) \<Rightarrow>
          if source \<noteq> [] \<and> iterator \<noteq> []
          then (Some forEach_template,
                p\<lparr>p_store := (p_store p)\<lparr>forEach_cell := (forEach_cell (p_store p))
                   \<lparr>fe_source := source, fe_as := iterator, fe_body := []\<rparr>\<rparr>\<rparr>)
          else (None, p)
      | _ \<Rightarrow> (None, p))"

section \<open>Routing, parse and the artifact envelope\<close>

text \<open>\<^verbatim>\<open>self.schema["steps"].append(current_step)\<close>, under \<^verbatim>\<open>if current_step:\<close>.\<close>

definition append_step :: "step option \<times> parser \<Rightarrow> parser" where
  "append_step r =
     (case r of
        (Some current_step, p) \<Rightarrow> p\<lparr>p_steps := p_steps p @ [current_step]\<rparr>
      | (None, p) \<Rightarrow> p)"

text \<open>The body of the loop of \<^verbatim>\<open>_process_sentences\<close>: one \<^verbatim>\<open>if\<close>/\<^verbatim>\<open>elif\<close> chain.\<close>

definition process_sentence :: "annotator \<Rightarrow> parser \<Rightarrow> sent \<Rightarrow> parser" where
  "process_sentence nlp p s =
     (if contains ''input'' (lower (s_text s)) then parse_input nlp s p
      else if contains ''set'' (lower (s_text s)) \<or> contains ''assign'' (lower (s_text s))
      then append_step (parse_set_step nlp s p)
      else if contains ''if'' (lower (s_text s)) \<or> contains ''check'' (lower (s_text s))
      then append_step (parse_assert_step nlp s p)
      else if contains ''log'' (lower (s_text s)) \<or> contains ''print'' (lower (s_text s))
      then append_step (parse_log_step nlp s p)
      else if contains ''for each'' (lower (s_text s)) \<or> contains ''loop'' (lower (s_text s))
      then append_step (parse_foreach_step nlp s p)
      else if contains ''context'' (lower (s_text s)) \<or> contains ''variable'' (lower (s_text s))
      then parse_context nlp s p
      else p)"

definition process_sentences :: "annotator \<Rightarrow> doc \<Rightarrow> parser \<Rightarrow> parser" where
  "process_sentences nlp d p = foldl (process_sentence nlp) p d"

text \<open>
  \<^verbatim>\<open>parse\<close> works on the parser object it is called on and returns its
  \<^verbatim>\<open>self.schema\<close>; the model returns the parser object after the call.
\<close>

definition parse :: "annotator \<Rightarrow> string \<Rightarrow> parser \<Rightarrow> parser" where
  "parse nlp txt p =
     (let d = nlp txt in
      process_sentences nlp d (p\<lparr>p_function := generate_function_name d\<rparr>))"

text \<open>
  What a reader of the returned schema sees (what \<^verbatim>\<open>json.dumps\<close> prints): every step
  with the present content of the payload dictionary it points to.
\<close>

datatype payload =
  SetV set_payload | AssertV assert_payload | LogV log_payload | ForEachV foreach_payload

definition view_step :: "store \<Rightarrow> step \<Rightarrow> string \<times> payload" where
  "view_step st x =
     (step_key x,
      case step_ref x of
        SetCell \<Rightarrow> SetV (set_cell st)
      | AssertCell \<Rightarrow> AssertV (assert_cell st)
      | LogCell \<Rightarrow> LogV (log_cell st)
      | ForEachCell \<Rightarrow> ForEachV (forEach_cell st))"

record schema =
  sch_function :: string
  sch_inputs :: "string \<rightharpoonup> input_decl"
  sch_schema_context :: "string \<rightharpoonup> string"
  sch_context :: "string \<rightharpoonup> json"
  sch_steps :: "(string \<times> payload) list"

definition schema_of :: "parser \<Rightarrow> schema" where
  "schema_of p =
     \<lparr>sch_function = p_function p, sch_inputs = p_inputs p,
      sch_schema_context = p_schema_context p, sch_context = p_context p,
      sch_steps = map (view_step (p_store p)) (p_steps p)\<rparr>"



section \<open>Notions of the specification\<close>


text \<open>
  A sentence declares the input \<open>n\<close>: it is routed to the input extractor (the first
  rule of the routing), which finds the name \<open>n\<close>.
\<close>

definition declares :: "annotator \<Rightarrow> sent \<Rightarrow> string \<Rightarrow> bool" where
  "declares nlp s n =
     (contains ''input'' (lower (s_text s)) \<and> fst (input_scan nlp s) = Some n \<and> n \<noteq> [])"





text \<open>The cue token of the assert extractor, and the four components of an assert sentence.\<close>

definition is_cue :: "token \<Rightarrow> bool" where
  "is_cue t = (lower (t_text t) \<in> set [''if'', ''check''])"



text \<open>A value as the extractors resolve it, for a name that is or is not a declared input.\<close>

definition resolved :: "bool \<Rightarrow> string \<Rightarrow> value_ref" where
  "resolved declared v = (if declared then Get v else Lit v)"

text \<open>
  The parser object at the moment \<^verbatim>\<open>parse\<close>, called on a new parser with the text
  \<open>txt\<close>, has processed the sentences \<open>pre\<close> of the document.
\<close>

definition state_after :: "annotator \<Rightarrow> string \<Rightarrow> sent list \<Rightarrow> parser" where
  "state_after nlp txt pre =
     process_sentences nlp pre (new_parser\<lparr>p_function := generate_function_name (nlp txt)\<rparr>)"

section \<open>A small annotator for the examples\<close>

text \<open>
  An annotator given by a table from texts to annotated documents: four texts, their
  sentences and two more sentences.
\<close>

definition tok :: "string \<Rightarrow> string \<Rightarrow> string \<Rightarrow> string \<Rightarrow> string \<Rightarrow> string \<Rightarrow> token" where
  "tok txt lem pos dep htxt hpos =
     \<lparr>t_text = txt, t_lemma = lem, t_pos = pos, t_dep = dep,
      t_head = \<lparr>h_text = htxt, h_pos = hpos\<rparr>\<rparr>"

definition demo_create :: sent where
  "demo_create =
     \<lparr>s_text = ''Create a workflow.'',
      s_tokens =
        [tok ''Create'' ''create'' ''VERB'' ''ROOT'' ''Create'' ''VERB'',
         tok ''a'' ''a'' ''DET'' ''det'' ''workflow'' ''NOUN'',
         tok ''workflow'' ''workflow'' ''NOUN'' ''dobj'' ''Create'' ''VERB'',
         tok ''.'' ''.'' ''PUNCT'' ''punct'' ''Create'' ''VERB'']\<rparr>"

definition demo_context :: sent where
  "demo_context =
     \<lparr>s_text = ''The context variable total is shared.'',
      s_tokens =
        [tok ''The'' ''the'' ''DET'' ''det'' ''total'' ''NOUN'',
         tok ''context'' ''context'' ''NOUN'' ''compound'' ''variable'' ''NOUN'',
         tok ''variable'' ''variable'' ''NOUN'' ''compound'' ''total'' ''NOUN'',
         tok ''total'' ''total'' ''NOUN'' ''nsubjpass'' ''shared'' ''VERB'',
         tok ''is'' ''be'' ''AUX'' ''auxpass'' ''shared'' ''VERB'',
         tok ''shared'' ''share'' ''VERB'' ''ROOT'' ''shared'' ''VERB'',
         tok ''.'' ''.'' ''PUNCT'' ''punct'' ''shared'' ''VERB'']\<rparr>"

definition demo_set_a :: sent where
  "demo_set_a =
     \<lparr>s_text = ''The set point is beta.'',
      s_tokens =
        [tok ''The'' ''the'' ''DET'' ''det'' ''point'' ''NOUN'',
         tok ''set'' ''set'' ''ADJ'' ''amod'' ''point'' ''NOUN'',
         tok ''point'' ''point'' ''NOUN'' ''nsubj'' ''is'' ''AUX'',
         tok ''is'' ''be'' ''AUX'' ''ROOT'' ''is'' ''AUX'',
         tok ''beta'' ''beta'' ''NOUN'' ''attr'' ''is'' ''AUX'',
         tok ''.'' ''.'' ''PUNCT'' ''punct'' ''is'' ''AUX'']\<rparr>"

definition demo_input :: sent where
  "demo_input =
     \<lparr>s_text = ''The input beta is required.'',
      s_tokens =
        [tok ''The'' ''the'' ''DET'' ''det'' ''beta'' ''NOUN'',
         tok ''input'' ''input'' ''NOUN'' ''compound'' ''beta'' ''NOUN'',
         tok ''beta'' ''beta'' ''NOUN'' ''nsubjpass'' ''required'' ''VERB'',
         tok ''is'' ''be'' ''AUX'' ''auxpass'' ''required'' ''VERB'',
         tok ''required'' ''require'' ''VERB'' ''ROOT'' ''required'' ''VERB'',
         tok ''.'' ''.'' ''PUNCT'' ''punct'' ''required'' ''VERB'']\<rparr>"

definition demo_set_b :: sent where
  "demo_set_b =
     \<lparr>s_text = ''The set level is beta.'',
      s_tokens =
        [tok ''The'' ''the'' ''DET'' ''det'' ''level'' ''NOUN'',
         tok ''set'' ''set'' ''ADJ'' ''amod'' ''level'' ''NOUN'',
         tok ''level'' ''level'' ''NOUN'' ''nsubj'' ''is'' ''AUX'',
         tok ''is'' ''be'' ''AUX'' ''ROOT'' ''is'' ''AUX'',
         tok ''beta'' ''beta'' ''NOUN'' ''attr'' ''is'' ''AUX'',
         tok ''.'' ''.'' ''PUNCT'' ''punct'' ''is'' ''AUX'']\<rparr>"

definition demo_if :: sent where
  "demo_if =
     \<lparr>s_text = ''If beta is > limit, stop.'',
      s_tokens =
        [tok ''If'' ''if'' ''SCONJ'' ''mark'' ''is'' ''AUX'',
         tok ''beta'' ''beta'' ''NOUN'' ''nsubj'' ''is'' ''AUX'',
         tok ''is'' ''be'' ''AUX'' ''advcl'' ''stop'' ''VERB'',
         tok ''>'' ''>'' ''SYM'' ''punct'' ''is'' ''AUX'',
         tok ''limit'' ''limit'' ''NOUN'' ''attr'' ''is'' ''AUX'',
         tok '','' '','' ''PUNCT'' ''punct'' ''stop'' ''VERB'',
         tok ''stop'' ''stop'' ''VERB'' ''ROOT'' ''stop'' ''VERB'',
         tok ''.'' ''.'' ''PUNCT'' ''punct'' ''stop'' ''VERB'']\<rparr>"

definition demo_if_late :: sent where
  "demo_if_late =
     \<lparr>s_text = ''Total is > limit if checked.'',
      s_tokens =
        [tok ''Total'' ''total'' ''NOUN'' ''nsubj'' ''is'' ''AUX'',
         tok ''is'' ''be'' ''AUX'' ''ROOT'' ''is'' ''AUX'',
         tok ''>'' ''>'' ''SYM'' ''punct'' ''is'' ''AUX'',
         tok ''limit'' ''limit'' ''NOUN'' ''attr'' ''is'' ''AUX'',
         tok ''if'' ''if'' ''SCONJ'' ''mark'' ''is'' ''AUX'',
         tok ''checked'' ''check'' ''VERB'' ''advcl'' ''is'' ''AUX'',
         tok ''.'' ''.'' ''PUNCT'' ''punct'' ''is'' ''AUX'']\<rparr>"

definition demo_loop :: sent where
  "demo_loop =
     \<lparr>s_text = ''Items loop over each record.'',
      s_tokens =
        [tok ''Items'' ''item'' ''NOUN'' ''nsubj'' ''loop'' ''VERB'',
         tok ''loop'' ''loop'' ''VERB'' ''ROOT'' ''loop'' ''VERB'',
         tok ''over'' ''over'' ''ADP'' ''prep'' ''loop'' ''VERB'',
         tok ''each'' ''each'' ''DET'' ''det'' ''record'' ''NOUN'',
         tok ''record'' ''record'' ''NOUN'' ''pobj'' ''over'' ''ADP'',
         tok ''.'' ''.'' ''PUNCT'' ''punct'' ''loop'' ''VERB'']\<rparr>"

definition demo_print :: sent where
  "demo_print =
     \<lparr>s_text = ''Print the record.'',
      s_tokens =
        [tok ''Print'' ''print'' ''VERB'' ''ROOT'' ''Print'' ''VERB'',
         tok ''the'' ''the'' ''DET'' ''det'' ''record'' ''NOUN'',
         tok ''record'' ''record'' ''NOUN'' ''dobj'' ''Print'' ''VERB'',
         tok ''.'' ''.'' ''PUNCT'' ''punct'' ''Print'' ''VERB'']\<rparr>"

definition demo_print_beta :: sent where
  "demo_print_beta =
     \<lparr>s_text = ''Print beta.'',
      s_tokens =
        [tok ''Print'' ''print'' ''VERB'' ''ROOT'' ''Print'' ''VERB'',
         tok ''beta'' ''beta'' ''NOUN'' ''dobj'' ''Print'' ''VERB'',
         tok ''.'' ''.'' ''PUNCT'' ''punct'' ''Print'' ''VERB'']\<rparr>"

definition demo_for_log :: sent where
  "demo_for_log =
     \<lparr>s_text = ''For each item in permissions, log the item.'',
      s_tokens =
        [tok ''For'' ''for'' ''ADP'' ''prep'' ''log'' ''VERB'',
         tok ''each'' ''each'' ''DET'' ''det'' ''item'' ''NOUN'',
         tok ''item'' ''item'' ''NOUN'' ''pobj'' ''For'' ''ADP'',
         tok ''in'' ''in'' ''ADP'' ''prep'' ''item'' ''NOUN'',
         tok ''permissions'' ''permission'' ''NOUN'' ''pobj'' ''in'' ''ADP'',
         tok '','' '','' ''PUNCT'' ''punct'' ''log'' ''VERB'',
         tok ''log'' ''log'' ''VERB'' ''ROOT'' ''log'' ''VERB'',
         tok ''the'' ''the'' ''DET'' ''det'' ''item'' ''NOUN'',
         tok ''item'' ''item'' ''NOUN'' ''dobj'' ''log'' ''VERB'',
         tok ''.'' ''.'' ''PUNCT'' ''punct'' ''log'' ''VERB'']\<rparr>"

definition text_sets :: string where
  "text_sets = ''The set point is beta. The input beta is required. The set level is beta.''"

definition text_loop :: string where
  "text_loop = ''Items loop over each record. Print the record.''"

definition text_create :: string where
  "text_create = ''Create a workflow. The context variable total is shared.''"

definition text_refs :: string where
  "text_refs =
     ''The input beta is required. The set level is beta. If beta is > limit, stop. Print beta.''"

definition demo_table :: "(string \<times> doc) list" where
  "demo_table =
     [(text_sets, [demo_set_a, demo_input, demo_set_b]),
      (text_loop, [demo_loop, demo_print]),
      (text_create, [demo_create, demo_context]),
      (text_refs, [demo_input, demo_set_b, demo_if, demo_print_beta]),
      (s_text demo_create, [demo_create]),
      (s_text demo_context, [demo_context]),
      (s_text demo_set_a, [demo_set_a]),
      (s_text demo_input, [demo_input]),
      (s_text demo_set_b, [demo_set_b]),
      (s_text demo_if, [demo_if]),
      (s_text demo_if_late, [demo_if_late]),
      (s_text demo_loop, [demo_loop]),
      (s_text demo_print, [demo_print]),
      (s_text demo_print_beta, [demo_print_beta]),
      (s_text demo_for_log, [demo_for_log])]"

definition demo_nlp :: annotator where
  "demo_nlp txt = (case map_of demo_table txt of Some d \<Rightarrow> d | None \<Rightarrow> [])"

section \<open>What each extractor leaves unchanged\<close>

lemma parse_input_unchanged:
  "p_function (parse_input nlp s p) = p_function p"
  "p_schema_context (parse_input nlp s p) = p_schema_context p"
  "p_context (parse_input nlp s p) = p_context p"
  "p_steps (parse_input nlp s p) = p_steps p"
  "p_store (parse_input nlp s p) = p_store p"
  by (simp_all add: parse_input_def split: prod.splits option.splits)

lemma parse_context_unchanged:
  "p_function (parse_context nlp s p) = p_function p"
  "p_inputs (parse_context nlp s p) = p_inputs p"
  "p_steps (parse_context nlp s p) = p_steps p"
  "p_store (parse_context nlp s p) = p_store p"
  by (simp_all add: parse_context_def split: prod.splits option.splits)

lemma parse_set_step_unchanged:
  "p_function (snd (parse_set_step nlp s p)) = p_function p"
  "p_inputs (snd (parse_set_step nlp s p)) = p_inputs p"
  "p_schema_context (snd (parse_set_step nlp s p)) = p_schema_context p"
  "p_context (snd (parse_set_step nlp s p)) = p_context p"
  "p_steps (snd (parse_set_step nlp s p)) = p_steps p"
  "forEach_cell (p_store (snd (parse_set_step nlp s p))) = forEach_cell (p_store p)"
  by (simp_all add: parse_set_step_def split: prod.splits option.splits)

lemma parse_assert_step_unchanged:
  "p_function (snd (parse_assert_step nlp s p)) = p_function p"
  "p_inputs (snd (parse_assert_step nlp s p)) = p_inputs p"
  "p_schema_context (snd (parse_assert_step nlp s p)) = p_schema_context p"
  "p_context (snd (parse_assert_step nlp s p)) = p_context p"
  "p_steps (snd (parse_assert_step nlp s p)) = p_steps p"
  "forEach_cell (p_store (snd (parse_assert_step nlp s p))) = forEach_cell (p_store p)"
  by (simp_all add: parse_assert_step_def split: prod.splits option.splits)

lemma parse_log_step_unchanged:
  "p_function (snd (parse_log_step nlp s p)) = p_function p"
  "p_inputs (snd (parse_log_step nlp s p)) = p_inputs p"
  "p_schema_context (snd (parse_log_step nlp s p)) = p_schema_context p"
  "p_context (snd (parse_log_step nlp s p)) = p_context p"
  "p_steps (snd (parse_log_step nlp s p)) = p_steps p"
  "forEach_cell (p_store (snd (parse_log_step nlp s p))) = forEach_cell (p_store p)"
  by (simp_all add: parse_log_step_def Let_def)

lemma parse_foreach_step_unchanged:
  "p_function (snd (parse_foreach_step nlp s p)) = p_function p"
  "p_inputs (snd (parse_foreach_step nlp s p)) = p_inputs p"
  "p_schema_context (snd (parse_foreach_step nlp s p)) = p_schema_context p"
  "p_context (snd (parse_foreach_step nlp s p)) = p_context p"
  "p_steps (snd (parse_foreach_step nlp s p)) = p_steps p"
  by (simp_all add: parse_foreach_step_def split: prod.splits option.splits)

lemma append_step_fields:
  "p_function (append_step r) = p_function (snd r)"
  "p_inputs (append_step r) = p_inputs (snd r)"
  "p_schema_context (append_step r) = p_schema_context (snd r)"
  "p_context (append_step r) = p_context (snd r)"
  "p_store (append_step r) = p_store (snd r)"
  "p_steps (append_step r) = p_steps (snd r) @ (case fst r of Some x \<Rightarrow> [x] | None \<Rightarrow> [])"
  by (simp_all add: append_step_def split: prod.splits option.splits)

lemmas step_extractors_unchanged =
  parse_set_step_unchanged parse_assert_step_unchanged parse_log_step_unchanged
  parse_foreach_step_unchanged append_step_fields

text \<open>Whether a step extractor returns a step depends on the tokens only.\<close>

lemma step_extractors_fst:
  "fst (parse_set_step nlp s p) = fst (parse_set_step nlp s q)"
  "fst (parse_assert_step nlp s p) = fst (parse_assert_step nlp s q)"
  "fst (parse_log_step nlp s p) = fst (parse_log_step nlp s q)"
  "fst (parse_foreach_step nlp s p) = fst (parse_foreach_step nlp s q)"
  by (simp_all add: parse_set_step_def parse_assert_step_def parse_log_step_def
      parse_foreach_step_def Let_def split: prod.splits option.splits)


section \<open>What a sentence and a document do to the parser object\<close>



lemma process_sentence_steps:
  "p_steps (process_sentence nlp p s) = p_steps p @ p_steps (process_sentence nlp new_parser s)"
proof -
  have e: "p_steps new_parser = []" by (simp add: new_parser_def)
  show ?thesis
    unfolding process_sentence_def
    by (simp add: e parse_input_unchanged parse_context_unchanged step_extractors_unchanged
        step_extractors_fst [of nlp s p new_parser])
qed

lemma process_sentences_steps:
  "p_steps (process_sentences nlp d p) =
     p_steps p @ concat (map (\<lambda>s. p_steps (process_sentence nlp new_parser s)) d)"
  unfolding process_sentences_def
proof (induction d arbitrary: p)
  case Nil
  then show ?case by simp
next
  case (Cons s d)
  show ?case
    by (simp add: Cons.IH process_sentence_steps [of nlp p s])
qed

lemma process_sentence_inputs:
  "p_inputs (process_sentence nlp p s) n = None \<longleftrightarrow>
     p_inputs p n = None \<and> \<not> declares nlp s n"
  unfolding process_sentence_def declares_def
  by (auto simp: parse_input_def parse_context_unchanged step_extractors_unchanged
      split: prod.splits option.splits if_splits)

lemma process_sentences_inputs:
  "p_inputs (process_sentences nlp d p) n = None \<longleftrightarrow>
     p_inputs p n = None \<and> \<not> list_ex (\<lambda>s. declares nlp s n) d"
  unfolding process_sentences_def
proof (induction d arbitrary: p)
  case Nil
  then show ?case by simp
next
  case (Cons s d)
  show ?case
    by (simp add: Cons.IH process_sentence_inputs)
qed




lemma process_sentence_body:
  "fe_body (forEach_cell (p_store p)) = [] \<Longrightarrow>
   fe_body (forEach_cell (p_store (process_sentence nlp p s))) = []"
  unfolding process_sentence_def
  by (auto simp: parse_input_unchanged parse_context_unchanged step_extractors_unchanged
      parse_foreach_step_def split: prod.splits option.splits)

lemma process_sentences_body:
  "fe_body (forEach_cell (p_store p)) = [] \<Longrightarrow>
   fe_body (forEach_cell (p_store (process_sentences nlp d p))) = []"
  unfolding process_sentences_def
  by (induction d arbitrary: p) (simp_all add: process_sentence_body)

section \<open>The token loops\<close>

lemma input_fold_type:
  "\<forall>t\<in>set ts. lower (t_text t) \<notin> set variable_types \<Longrightarrow>
   fst (snd (foldl input_token st ts)) = fst (snd st)"
  by (induction ts arbitrary: st) (auto simp: input_token_def split: prod.splits)

lemma context_fold_type:
  "\<forall>t\<in>set ts. lower (t_text t) \<notin> set variable_types \<Longrightarrow>
   snd (foldl context_token st ts) = snd st"
  by (induction ts arbitrary: st) (auto simp: context_token_def split: prod.splits)

lemma context_fold_type_mem:
  "snd st \<in> set variable_types \<Longrightarrow> snd (foldl context_token st ts) \<in> set variable_types"
proof (induction ts arbitrary: st)
  case Nil
  then show ?case by simp
next
  case (Cons t ts)
  have "snd (context_token st t) \<in> set variable_types"
    using Cons.prems by (cases st) (simp add: context_token_def)
  then show ?case by (simp add: Cons.IH)
qed


text \<open>The operator the assert loop holds is one of the literals.\<close>

lemma assert_fold_op:
  "(\<forall>x. fst (snd (snd st)) = Some x \<longrightarrow> x \<in> set comparison_ops) \<Longrightarrow>
   fst (snd (snd (foldl assert_token st ts))) = Some y \<Longrightarrow> y \<in> set comparison_ops"
proof (induction ts arbitrary: st)
  case Nil
  then show ?case by simp
next
  case (Cons t ts)
  have "\<forall>x. fst (snd (snd (assert_token st t))) = Some x \<longrightarrow> x \<in> set comparison_ops"
    using Cons.prems(1) by (cases st) (simp add: assert_token_def)
  then show ?case using Cons.IH Cons.prems(2) by simp
qed








section \<open>The example annotator, evaluated\<close>

lemmas demo_sentences =
  demo_create_def demo_context_def demo_set_a_def demo_input_def demo_set_b_def demo_if_def
  demo_if_late_def demo_loop_def demo_print_def demo_print_beta_def demo_for_log_def

lemma demo_nlp_texts:
  "demo_nlp text_sets = [demo_set_a, demo_input, demo_set_b]"
  "demo_nlp text_loop = [demo_loop, demo_print]"
  "demo_nlp text_create = [demo_create, demo_context]"
  "demo_nlp text_refs = [demo_input, demo_set_b, demo_if, demo_print_beta]"
  by (simp_all add: demo_nlp_def demo_table_def text_sets_def text_loop_def text_create_def
      text_refs_def demo_sentences)

lemma demo_nlp_tokens:
  "doc_tokens (demo_nlp (s_text demo_create)) = s_tokens demo_create"
  "doc_tokens (demo_nlp (s_text demo_context)) = s_tokens demo_context"
  "doc_tokens (demo_nlp (s_text demo_set_a)) = s_tokens demo_set_a"
  "doc_tokens (demo_nlp (s_text demo_input)) = s_tokens demo_input"
  "doc_tokens (demo_nlp (s_text demo_set_b)) = s_tokens demo_set_b"
  "doc_tokens (demo_nlp (s_text demo_if)) = s_tokens demo_if"
  "doc_tokens (demo_nlp (s_text demo_if_late)) = s_tokens demo_if_late"
  "doc_tokens (demo_nlp (s_text demo_loop)) = s_tokens demo_loop"
  "doc_tokens (demo_nlp (s_text demo_print)) = s_tokens demo_print"
  "doc_tokens (demo_nlp (s_text demo_print_beta)) = s_tokens demo_print_beta"
  "doc_tokens (demo_nlp (s_text demo_for_log)) = s_tokens demo_for_log"
  by (simp_all add: demo_nlp_def demo_table_def text_sets_def text_loop_def text_create_def
      text_refs_def demo_sentences doc_tokens_def)

lemmas string_ops = lower_def lower_char_def capitalize_def upper_char_def

lemma demo_scans:
  "input_scan demo_nlp demo_input = (Some ''beta'', ''string'', '''')"
  "context_scan demo_nlp demo_context = (Some ''total'', ''string'')"
  "set_scan demo_nlp demo_set_a = (Some ''point'', Some ''beta'')"
  "set_scan demo_nlp demo_set_b = (Some ''level'', Some ''beta'')"
  "assert_scan demo_nlp demo_if = (Some ''is'', Some ''beta'', Some ''>'', Some ''limit'')"
  "assert_scan demo_nlp demo_if_late = (Some ''is'', None, Some ''>'', Some ''limit'')"
  "foreach_scan demo_nlp demo_loop = (Some ''record'', Some ''Items'')"
  "log_scan demo_nlp demo_print = [''record'']"
  "log_scan demo_nlp demo_print_beta = [''beta'']"
  "log_scan demo_nlp demo_for_log = [''item'']"
  unfolding input_scan_def context_scan_def set_scan_def assert_scan_def foreach_scan_def
    log_scan_def demo_nlp_tokens
  by (simp_all add: demo_sentences tok_def input_token_def context_token_def set_token_def
      assert_token_def foreach_token_def log_token_def variable_types_def comparison_ops_def
      string_ops)

lemma demo_routes:
  "process_sentence demo_nlp p demo_create = p"
  "process_sentence demo_nlp p demo_context = parse_context demo_nlp demo_context p"
  "process_sentence demo_nlp p demo_set_a = append_step (parse_set_step demo_nlp demo_set_a p)"
  "process_sentence demo_nlp p demo_input = parse_input demo_nlp demo_input p"
  "process_sentence demo_nlp p demo_set_b = append_step (parse_set_step demo_nlp demo_set_b p)"
  "process_sentence demo_nlp p demo_if = append_step (parse_assert_step demo_nlp demo_if p)"
  "process_sentence demo_nlp p demo_if_late =
     append_step (parse_assert_step demo_nlp demo_if_late p)"
  "process_sentence demo_nlp p demo_loop = append_step (parse_foreach_step demo_nlp demo_loop p)"
  "process_sentence demo_nlp p demo_print = append_step (parse_log_step demo_nlp demo_print p)"
  "process_sentence demo_nlp p demo_print_beta =
     append_step (parse_log_step demo_nlp demo_print_beta p)"
  "process_sentence demo_nlp p demo_for_log =
     append_step (parse_log_step demo_nlp demo_for_log p)"
  unfolding process_sentence_def
  by (simp_all add: demo_sentences string_ops)

section \<open>The function name (C8)\<close>







section \<open>Two runs of the wrapper (C2)\<close>


section \<open>The body of a forEach step (C6)\<close>

lemma parse_body:
  "fe_body (forEach_cell (p_store p)) = [] \<Longrightarrow>
   fe_body (forEach_cell (p_store (parse nlp txt p))) = []"
  by (simp add: parse_def Let_def process_sentences_body)

lemma parses_body:
  "fe_body (forEach_cell (p_store p)) = [] \<Longrightarrow>
   fe_body (forEach_cell (p_store (foldl (\<lambda>q txt. parse nlp txt q) p txts))) = []"
  by (induction txts arbitrary: p) (simp_all add: parse_body)

lemma view_step_forEach: "snd (view_step st x) = ForEachV fp \<Longrightarrow> fp = forEach_cell st"
  by (auto simp: view_step_def split: cell.splits)

text \<open>
  C6: in the schema a parser returns, after any number of calls of parse on it, every
  forEach step has the empty body.
\<close>

theorem C6_forEach_body_empty:
  "\<forall>x\<in>set (sch_steps (schema_of (foldl (\<lambda>q txt. parse nlp txt q) new_parser txts))).
     \<forall>fp. snd x = ForEachV fp \<longrightarrow> fe_body fp = []"
proof -
  have "fe_body (forEach_cell (p_store new_parser)) = []"
    by (simp add: new_parser_def init_store_def)
  then have "fe_body (forEach_cell (p_store (foldl (\<lambda>q txt. parse nlp txt q) new_parser txts))) = []"
    by (rule parses_body)
  then show ?thesis
    by (auto simp: schema_of_def dest: view_step_forEach)
qed

theorem C6_forEach_body_empty_witness:
  "\<exists>fp. (''forEach'', ForEachV fp) \<in>
          set (sch_steps (schema_of (foldl (\<lambda>q txt. parse demo_nlp txt q) new_parser [text_loop])))
        \<and> fe_body fp = []"
proof -
  define P where "P = foldl (\<lambda>q txt. parse demo_nlp txt q) new_parser [text_loop]"
  have steps: "p_steps P = [forEach_template, log_template]"
    unfolding P_def
    by (simp add: parse_def Let_def demo_nlp_texts process_sentences_steps demo_routes
        step_extractors_unchanged parse_foreach_step_def parse_log_step_def demo_scans
        new_parser_def)
  have mem: "(''forEach'', ForEachV (forEach_cell (p_store P))) \<in> set (sch_steps (schema_of P))"
    by (simp add: schema_of_def steps view_step_def forEach_template_def log_template_def)
  have "fe_body (forEach_cell (p_store P)) = []"
    using C6_forEach_body_empty [of demo_nlp "[text_loop]"] mem
    unfolding P_def by force
  then show ?thesis using mem unfolding P_def by blast
qed

section \<open>A second call of parse on the same parser (C10)\<close>







section \<open>Default types and initial context values (C7)\<close>

lemma context_scan_type: "snd (context_scan nlp s) \<in> set variable_types"
  unfolding context_scan_def
  by (rule context_fold_type_mem) (simp add: variable_types_def)

text \<open>
  C7: an input or context variable declared by a sentence none of whose tokens is a type
  name gets the type "string"; and a declared context variable gets the initial value ""
  for the type "string", the empty sequence for "array" and the empty mapping for each of
  the other types.
\<close>

theorem C7_type_defaults:
  "(fst (input_scan nlp s) = Some n \<and> n \<noteq> [] \<and>
      (\<forall>t\<in>set (doc_tokens (nlp (s_text s))). lower (t_text t) \<notin> set variable_types)
    \<longrightarrow> map_option in_type (p_inputs (parse_input nlp s p) n) = Some ''string'')
   \<and> (fst (context_scan nlp s) = Some n \<and> n \<noteq> [] \<and>
      (\<forall>t\<in>set (doc_tokens (nlp (s_text s))). lower (t_text t) \<notin> set variable_types)
    \<longrightarrow> p_schema_context (parse_context nlp s p) n = Some ''string'')
   \<and> (fst (context_scan nlp s) = Some n \<and> n \<noteq> []
    \<longrightarrow> (\<exists>ty. ty \<in> set variable_types
          \<and> p_schema_context (parse_context nlp s p) n = Some ty
          \<and> p_context (parse_context nlp s p) n =
              Some (if ty = ''string'' then JString ''''
                    else if ty = ''array'' then JArray [] else JObject [])))"
proof (intro conjI impI)
  assume a: "fst (input_scan nlp s) = Some n \<and> n \<noteq> [] \<and>
      (\<forall>t\<in>set (doc_tokens (nlp (s_text s))). lower (t_text t) \<notin> set variable_types)"
  then have "fst (snd (input_scan nlp s)) = ''string''"
    unfolding input_scan_def using input_fold_type by fastforce
  then show "map_option in_type (p_inputs (parse_input nlp s p) n) = Some ''string''"
    using a by (auto simp: parse_input_def split: prod.splits option.splits)
next
  assume a: "fst (context_scan nlp s) = Some n \<and> n \<noteq> [] \<and>
      (\<forall>t\<in>set (doc_tokens (nlp (s_text s))). lower (t_text t) \<notin> set variable_types)"
  then have "snd (context_scan nlp s) = ''string''"
    unfolding context_scan_def using context_fold_type by fastforce
  then show "p_schema_context (parse_context nlp s p) n = Some ''string''"
    using a by (auto simp: parse_context_def split: prod.splits option.splits)
next
  assume a: "fst (context_scan nlp s) = Some n \<and> n \<noteq> []"
  obtain ty where ty: "context_scan nlp s = (Some n, ty)"
    using a by (cases "context_scan nlp s") auto
  have "ty \<in> set variable_types" using context_scan_type [of nlp s] ty by simp
  moreover have "p_schema_context (parse_context nlp s p) n = Some ty"
    using a ty by (simp add: parse_context_def)
  moreover have "p_context (parse_context nlp s p) n =
      Some (if ty = ''string'' then JString '''' else if ty = ''array'' then JArray [] else JObject [])"
    using a ty by (simp add: parse_context_def)
  ultimately show "\<exists>ty. ty \<in> set variable_types
          \<and> p_schema_context (parse_context nlp s p) n = Some ty
          \<and> p_context (parse_context nlp s p) n =
              Some (if ty = ''string'' then JString ''''
                    else if ty = ''array'' then JArray [] else JObject [])"
    by blast
qed

lemma demo_no_type_token:
  "\<forall>t\<in>set (doc_tokens (demo_nlp (s_text demo_input))). lower (t_text t) \<notin> set variable_types"
  "\<forall>t\<in>set (doc_tokens (demo_nlp (s_text demo_context))). lower (t_text t) \<notin> set variable_types"
  unfolding demo_nlp_tokens
  by (simp_all add: demo_sentences tok_def variable_types_def string_ops)

theorem C7_type_defaults_witness:
  "map_option in_type (p_inputs (parse_input demo_nlp demo_input new_parser) ''beta'') =
     Some ''string''
   \<and> p_schema_context (parse_context demo_nlp demo_context new_parser) ''total'' = Some ''string''
   \<and> p_context (parse_context demo_nlp demo_context new_parser) ''total'' = Some (JString '''')"
proof -
  have i: "fst (input_scan demo_nlp demo_input) = Some ''beta'' \<and> ''beta'' \<noteq> [] \<and>
      (\<forall>t\<in>set (doc_tokens (demo_nlp (s_text demo_input))). lower (t_text t) \<notin> set variable_types)"
    using demo_no_type_token(1) by (simp add: demo_scans)
  have c: "fst (context_scan demo_nlp demo_context) = Some ''total'' \<and> ''total'' \<noteq> [] \<and>
      (\<forall>t\<in>set (doc_tokens (demo_nlp (s_text demo_context))). lower (t_text t) \<notin> set variable_types)"
    using demo_no_type_token(2) by (simp add: demo_scans)
  have 1: "map_option in_type (p_inputs (parse_input demo_nlp demo_input new_parser) ''beta'') =
     Some ''string''"
    using C7_type_defaults [of demo_nlp demo_input "''beta''" new_parser] i by blast
  have 2: "p_schema_context (parse_context demo_nlp demo_context new_parser) ''total'' =
      Some ''string''"
    using C7_type_defaults [of demo_nlp demo_context "''total''" new_parser] c by blast
  have "\<exists>ty. p_schema_context (parse_context demo_nlp demo_context new_parser) ''total'' = Some ty
          \<and> p_context (parse_context demo_nlp demo_context new_parser) ''total'' =
              Some (if ty = ''string'' then JString ''''
                    else if ty = ''array'' then JArray [] else JObject [])"
    using C7_type_defaults [of demo_nlp demo_context "''total''" new_parser] c by blast
  then have 3: "p_context (parse_context demo_nlp demo_context new_parser) ''total'' =
      Some (JString '''')"
    using 2 by auto
  show ?thesis using 1 2 3 by blast
qed

section \<open>The routing of a sentence (C5)\<close>

lemma contains_iff: "contains sub s \<longleftrightarrow> (\<exists>a b. s = a @ sub @ b)"
proof (induction s)
  case Nil
  then show ?case by auto
next
  case (Cons c cs)
  show ?case
  proof
    assume "contains sub (c # cs)"
    then consider "take (length sub) (c # cs) = sub" | "contains sub cs" by auto
    then show "\<exists>a b. c # cs = a @ sub @ b"
    proof cases
      case 1
      then have "c # cs = [] @ sub @ drop (length sub) (c # cs)"
        by (metis append_Nil append_take_drop_id)
      then show ?thesis by blast
    next
      case 2
      then obtain a b where "cs = a @ sub @ b" using Cons.IH by auto
      then have "c # cs = (c # a) @ sub @ b" by simp
      then show ?thesis by blast
    qed
  next
    assume "\<exists>a b. c # cs = a @ sub @ b"
    then obtain a b where ab: "c # cs = a @ sub @ b" by auto
    show "contains sub (c # cs)"
    proof (cases a)
      case Nil
      then have "take (length sub) (c # cs) = sub" using ab by simp
      then show ?thesis by simp
    next
      case (Cons x a')
      then have "cs = a' @ sub @ b" using ab by simp
      then show ?thesis using Cons.IH by auto
    qed
  qed
qed





section \<open>A returned step is fully formed (C9)\<close>

lemma assert_scan_op: "assert_scan nlp s = (c, l, Some x, r) \<Longrightarrow> x \<in> set comparison_ops"
  unfolding assert_scan_def
  using assert_fold_op [of "(None, None, None, None)" "doc_tokens (nlp (s_text s))" x]
  by simp

lemma cell_updates:
  "(c :: set_payload)\<lparr>set_target := a, set_value := b\<rparr> = \<lparr>set_target = a, set_value = b\<rparr>"
  "(l :: log_payload)\<lparr>log_message := m\<rparr> = \<lparr>log_level = log_level l, log_message = m\<rparr>"
  "(f :: foreach_payload)\<lparr>fe_source := x, fe_as := y, fe_body := z\<rparr> =
     \<lparr>fe_source = x, fe_as = y, fe_body = z\<rparr>"
  by (cases c, simp) (cases l, simp, cases f, simp)

text \<open>The result of each step extractor, from what its loop found.\<close>

lemma parse_set_step_Some:
  "set_scan nlp s = (Some target, Some v) \<Longrightarrow> target \<noteq> [] \<Longrightarrow> v \<noteq> [] \<Longrightarrow>
   parse_set_step nlp s p =
     (Some set_template,
      p\<lparr>p_store := (p_store p)\<lparr>set_cell :=
         \<lparr>set_target = target, set_value = resolved (p_inputs p v \<noteq> None) v\<rparr>\<rparr>\<rparr>)"
  by (simp add: parse_set_step_def resolved_def cell_updates)

lemma parse_set_step_None:
  "\<not> (\<exists>target v. set_scan nlp s = (Some target, Some v) \<and> target \<noteq> [] \<and> v \<noteq> []) \<Longrightarrow>
   parse_set_step nlp s p = (None, p)"
  by (auto simp: parse_set_step_def split: prod.splits option.splits)

lemma parse_assert_step_Some:
  "assert_scan nlp s = (c, Some left, Some op, Some right) \<Longrightarrow>
   left \<noteq> [] \<Longrightarrow> op \<noteq> [] \<Longrightarrow> right \<noteq> [] \<Longrightarrow>
   parse_assert_step nlp s p =
     (Some assert_template,
      p\<lparr>p_store := (p_store p)\<lparr>assert_cell :=
         \<lparr>assert_condition = \<lparr>cond_compare =
            \<lparr>c_left = resolved (p_inputs p left \<noteq> None) left, c_op = op,
             c_right = resolved (p_inputs p right \<noteq> None) right\<rparr>\<rparr>,
          assert_message = left @ '' '' @ op @ '' '' @ right @ '' check failed''\<rparr>\<rparr>\<rparr>)"
  by (simp add: parse_assert_step_def resolved_def)

lemma parse_assert_step_None:
  "\<not> (\<exists>c left op right. assert_scan nlp s = (c, Some left, Some op, Some right)
        \<and> left \<noteq> [] \<and> op \<noteq> [] \<and> right \<noteq> []) \<Longrightarrow>
   parse_assert_step nlp s p = (None, p)"
  by (auto simp: parse_assert_step_def split: prod.splits option.splits)

lemma parse_log_step_Some:
  "log_scan nlp s \<noteq> [] \<Longrightarrow>
   parse_log_step nlp s p =
     (Some log_template,
      p\<lparr>p_store := (p_store p)\<lparr>log_cell :=
         \<lparr>log_level = log_level (log_cell (p_store p)),
          log_message = map (\<lambda>v. resolved (p_inputs p v \<noteq> None) v) (log_scan nlp s)\<rparr>\<rparr>\<rparr>)"
  by (simp add: parse_log_step_def Let_def resolved_def cell_updates)

lemma parse_log_step_None: "log_scan nlp s = [] \<Longrightarrow> parse_log_step nlp s p = (None, p)"
  by (simp add: parse_log_step_def)

lemma parse_foreach_step_Some:
  "foreach_scan nlp s = (Some source, Some iterator) \<Longrightarrow> source \<noteq> [] \<Longrightarrow> iterator \<noteq> [] \<Longrightarrow>
   parse_foreach_step nlp s p =
     (Some forEach_template,
      p\<lparr>p_store := (p_store p)\<lparr>forEach_cell :=
         \<lparr>fe_source = source, fe_as = iterator, fe_body = []\<rparr>\<rparr>\<rparr>)"
  by (simp add: parse_foreach_step_def cell_updates)

lemma parse_foreach_step_None:
  "\<not> (\<exists>source iterator. foreach_scan nlp s = (Some source, Some iterator)
        \<and> source \<noteq> [] \<and> iterator \<noteq> []) \<Longrightarrow>
   parse_foreach_step nlp s p = (None, p)"
  by (auto simp: parse_foreach_step_def split: prod.splits option.splits)

lemma view_templates:
  "view_step st set_template = (''set'', SetV (set_cell st))"
  "view_step st assert_template = (''assert'', AssertV (assert_cell st))"
  "view_step st log_template = (''log'', LogV (log_cell st))"
  "view_step st forEach_template = (''forEach'', ForEachV (forEach_cell st))"
  by (simp_all add: view_step_def set_template_def assert_template_def log_template_def
      forEach_template_def)

lemma parse_set_step_formed:
  assumes "parse_set_step nlp s p = (r, p')"
  shows "r = None \<and> p' = p \<or>
   r = Some set_template \<and>
   (\<exists>target v. target \<noteq> [] \<and> v \<noteq> [] \<and>
      view_step (p_store p') set_template =
        (''set'', SetV \<lparr>set_target = target, set_value = resolved (p_inputs p v \<noteq> None) v\<rparr>))"
proof (cases "\<exists>target v. set_scan nlp s = (Some target, Some v) \<and> target \<noteq> [] \<and> v \<noteq> []")
  case True
  then obtain target v where f: "set_scan nlp s = (Some target, Some v)" "target \<noteq> []" "v \<noteq> []"
    by blast
  have "r = Some set_template"
    using assms parse_set_step_Some [OF f, of p] by simp
  moreover have "view_step (p_store p') set_template =
      (''set'', SetV \<lparr>set_target = target, set_value = resolved (p_inputs p v \<noteq> None) v\<rparr>)"
    using assms parse_set_step_Some [OF f, of p] by (auto simp: view_templates)
  ultimately show ?thesis using f(2,3) by blast
next
  case False
  then show ?thesis using assms parse_set_step_None [of nlp s p] by simp
qed

lemma parse_assert_step_formed:
  assumes "parse_assert_step nlp s p = (r, p')"
  shows "r = None \<and> p' = p \<or>
   r = Some assert_template \<and>
   (\<exists>left op right. left \<noteq> [] \<and> op \<in> set comparison_ops \<and> right \<noteq> [] \<and>
      view_step (p_store p') assert_template =
        (''assert'',
         AssertV \<lparr>assert_condition = \<lparr>cond_compare =
                    \<lparr>c_left = resolved (p_inputs p left \<noteq> None) left, c_op = op,
                     c_right = resolved (p_inputs p right \<noteq> None) right\<rparr>\<rparr>,
                  assert_message = left @ '' '' @ op @ '' '' @ right @ '' check failed''\<rparr>))"
proof (cases "\<exists>c left op right. assert_scan nlp s = (c, Some left, Some op, Some right)
        \<and> left \<noteq> [] \<and> op \<noteq> [] \<and> right \<noteq> []")
  case True
  then obtain c left op right where
    f: "assert_scan nlp s = (c, Some left, Some op, Some right)" "left \<noteq> []" "op \<noteq> []"
      "right \<noteq> []"
    by blast
  have "op \<in> set comparison_ops" using f(1) by (rule assert_scan_op)
  moreover have "r = Some assert_template"
    using assms parse_assert_step_Some [OF f, of p] by simp
  moreover have "view_step (p_store p') assert_template =
        (''assert'',
         AssertV \<lparr>assert_condition = \<lparr>cond_compare =
                    \<lparr>c_left = resolved (p_inputs p left \<noteq> None) left, c_op = op,
                     c_right = resolved (p_inputs p right \<noteq> None) right\<rparr>\<rparr>,
                  assert_message = left @ '' '' @ op @ '' '' @ right @ '' check failed''\<rparr>)"
    using assms parse_assert_step_Some [OF f, of p] by (auto simp: view_templates)
  ultimately show ?thesis using f(2,4) by blast
next
  case False
  then show ?thesis using assms parse_assert_step_None [of nlp s p] by simp
qed

lemma parse_log_step_formed:
  assumes "parse_log_step nlp s p = (r, p')"
  shows "r = None \<and> p' = p \<or>
   r = Some log_template \<and>
   (\<exists>parts. parts \<noteq> [] \<and>
      view_step (p_store p') log_template =
        (''log'',
         LogV \<lparr>log_level = log_level (log_cell (p_store p)),
               log_message = map (\<lambda>v. resolved (p_inputs p v \<noteq> None) v) parts\<rparr>))"
proof (cases "log_scan nlp s = []")
  case True
  then show ?thesis using assms parse_log_step_None [of nlp s p] by simp
next
  case False
  have "r = Some log_template"
    using assms parse_log_step_Some [OF False, of p] by simp
  moreover have "view_step (p_store p') log_template =
        (''log'',
         LogV \<lparr>log_level = log_level (log_cell (p_store p)),
               log_message = map (\<lambda>v. resolved (p_inputs p v \<noteq> None) v) (log_scan nlp s)\<rparr>)"
    using assms parse_log_step_Some [OF False, of p] by (auto simp: view_templates)
  ultimately show ?thesis using False by blast
qed

lemma parse_foreach_step_formed:
  assumes "parse_foreach_step nlp s p = (r, p')"
  shows "r = None \<and> p' = p \<or>
   r = Some forEach_template \<and>
   (\<exists>source iterator. source \<noteq> [] \<and> iterator \<noteq> [] \<and>
      view_step (p_store p') forEach_template =
        (''forEach'', ForEachV \<lparr>fe_source = source, fe_as = iterator, fe_body = []\<rparr>))"
proof (cases "\<exists>source iterator. foreach_scan nlp s = (Some source, Some iterator)
        \<and> source \<noteq> [] \<and> iterator \<noteq> []")
  case True
  then obtain source iterator where
    f: "foreach_scan nlp s = (Some source, Some iterator)" "source \<noteq> []" "iterator \<noteq> []"
    by blast
  have "r = Some forEach_template"
    using assms parse_foreach_step_Some [OF f, of p] by simp
  moreover have "view_step (p_store p') forEach_template =
        (''forEach'', ForEachV \<lparr>fe_source = source, fe_as = iterator, fe_body = []\<rparr>)"
    using assms parse_foreach_step_Some [OF f, of p] by (auto simp: view_templates)
  ultimately show ?thesis using f(2,3) by blast
next
  case False
  then show ?thesis using assms parse_foreach_step_None [of nlp s p] by simp
qed

text \<open>
  C9: each of the four step extractors returns either no step, and then leaves the parser as
  it is, or a step all of whose fields are filled: a set step has a non-empty target and a
  value of a non-empty name; an assert step has non-empty left and right, one of the
  comparison literals as op and the message built from the three; a log step has a
  non-empty message; a forEach step has a non-empty source and loop variable and the empty
  body.
\<close>

theorem C9_steps_fully_formed:
  "(parse_set_step nlp s p = (r, p') \<longrightarrow>
      r = None \<and> p' = p \<or>
      r = Some set_template \<and>
      (\<exists>target v. target \<noteq> [] \<and> v \<noteq> [] \<and>
         view_step (p_store p') set_template =
           (''set'', SetV \<lparr>set_target = target, set_value = resolved (p_inputs p v \<noteq> None) v\<rparr>)))
   \<and> (parse_assert_step nlp s p = (r, p') \<longrightarrow>
      r = None \<and> p' = p \<or>
      r = Some assert_template \<and>
      (\<exists>left op right. left \<noteq> [] \<and> op \<in> set comparison_ops \<and> right \<noteq> [] \<and>
         view_step (p_store p') assert_template =
           (''assert'',
            AssertV \<lparr>assert_condition = \<lparr>cond_compare =
                       \<lparr>c_left = resolved (p_inputs p left \<noteq> None) left, c_op = op,
                        c_right = resolved (p_inputs p right \<noteq> None) right\<rparr>\<rparr>,
                     assert_message = left @ '' '' @ op @ '' '' @ right @ '' check failed''\<rparr>)))
   \<and> (parse_log_step nlp s p = (r, p') \<longrightarrow>
      r = None \<and> p' = p \<or>
      r = Some log_template \<and>
      (\<exists>parts. parts \<noteq> [] \<and>
         view_step (p_store p') log_template =
           (''log'',
            LogV \<lparr>log_level = log_level (log_cell (p_store p)),
                  log_message = map (\<lambda>v. resolved (p_inputs p v \<noteq> None) v) parts\<rparr>)))
   \<and> (parse_foreach_step nlp s p = (r, p') \<longrightarrow>
      r = None \<and> p' = p \<or>
      r = Some forEach_template \<and>
      (\<exists>source iterator. source \<noteq> [] \<and> iterator \<noteq> [] \<and>
         view_step (p_store p') forEach_template =
           (''forEach'', ForEachV \<lparr>fe_source = source, fe_as = iterator, fe_body = []\<rparr>)))"
  using parse_set_step_formed [of nlp s p r p'] parse_assert_step_formed [of nlp s p r p']
    parse_log_step_formed [of nlp s p r p'] parse_foreach_step_formed [of nlp s p r p']
  by blast
theorem C9_steps_fully_formed_witness:
  "(\<exists>target v. target \<noteq> [] \<and> v \<noteq> [] \<and>
      view_step (p_store (snd (parse_set_step demo_nlp demo_set_a new_parser))) set_template =
        (''set'', SetV \<lparr>set_target = target,
                        set_value = resolved (p_inputs new_parser v \<noteq> None) v\<rparr>))
   \<and> (\<exists>left op right. left \<noteq> [] \<and> op \<in> set comparison_ops \<and> right \<noteq> [] \<and>
      view_step (p_store (snd (parse_assert_step demo_nlp demo_if new_parser))) assert_template =
        (''assert'',
         AssertV \<lparr>assert_condition = \<lparr>cond_compare =
                    \<lparr>c_left = resolved (p_inputs new_parser left \<noteq> None) left, c_op = op,
                     c_right = resolved (p_inputs new_parser right \<noteq> None) right\<rparr>\<rparr>,
                  assert_message = left @ '' '' @ op @ '' '' @ right @ '' check failed''\<rparr>))
   \<and> (\<exists>parts. parts \<noteq> [] \<and>
      view_step (p_store (snd (parse_log_step demo_nlp demo_print new_parser))) log_template =
        (''log'',
         LogV \<lparr>log_level = log_level (log_cell (p_store new_parser)),
               log_message = map (\<lambda>v. resolved (p_inputs new_parser v \<noteq> None) v) parts\<rparr>))
   \<and> (\<exists>source iterator. source \<noteq> [] \<and> iterator \<noteq> [] \<and>
      view_step (p_store (snd (parse_foreach_step demo_nlp demo_loop new_parser)))
        forEach_template =
        (''forEach'', ForEachV \<lparr>fe_source = source, fe_as = iterator, fe_body = []\<rparr>))
   \<and> parse_assert_step demo_nlp demo_if_late new_parser = (None, new_parser)"
proof -
  have s: "fst (parse_set_step demo_nlp demo_set_a new_parser) \<noteq> None"
    by (simp add: parse_set_step_def demo_scans)
  have a: "fst (parse_assert_step demo_nlp demo_if new_parser) \<noteq> None"
    by (simp add: parse_assert_step_def demo_scans)
  have l: "fst (parse_log_step demo_nlp demo_print new_parser) \<noteq> None"
    by (simp add: parse_log_step_def demo_scans)
  have f: "fst (parse_foreach_step demo_nlp demo_loop new_parser) \<noteq> None"
    by (simp add: parse_foreach_step_def demo_scans)
  have n: "fst (parse_assert_step demo_nlp demo_if_late new_parser) = None"
    by (simp add: parse_assert_step_def demo_scans)
  note t = C9_steps_fully_formed
  have 1: "\<exists>target v. target \<noteq> [] \<and> v \<noteq> [] \<and>
      view_step (p_store (snd (parse_set_step demo_nlp demo_set_a new_parser))) set_template =
        (''set'', SetV \<lparr>set_target = target,
                        set_value = resolved (p_inputs new_parser v \<noteq> None) v\<rparr>)"
    using s t [of demo_nlp demo_set_a new_parser
        "fst (parse_set_step demo_nlp demo_set_a new_parser)"
        "snd (parse_set_step demo_nlp demo_set_a new_parser)", THEN conjunct1]
    by auto
  have 2: "\<exists>left op right. left \<noteq> [] \<and> op \<in> set comparison_ops \<and> right \<noteq> [] \<and>
      view_step (p_store (snd (parse_assert_step demo_nlp demo_if new_parser))) assert_template =
        (''assert'',
         AssertV \<lparr>assert_condition = \<lparr>cond_compare =
                    \<lparr>c_left = resolved (p_inputs new_parser left \<noteq> None) left, c_op = op,
                     c_right = resolved (p_inputs new_parser right \<noteq> None) right\<rparr>\<rparr>,
                  assert_message = left @ '' '' @ op @ '' '' @ right @ '' check failed''\<rparr>)"
    using a t [of demo_nlp demo_if new_parser
        "fst (parse_assert_step demo_nlp demo_if new_parser)"
        "snd (parse_assert_step demo_nlp demo_if new_parser)", THEN conjunct2, THEN conjunct1]
    by auto
  have 3: "\<exists>parts. parts \<noteq> [] \<and>
      view_step (p_store (snd (parse_log_step demo_nlp demo_print new_parser))) log_template =
        (''log'',
         LogV \<lparr>log_level = log_level (log_cell (p_store new_parser)),
               log_message = map (\<lambda>v. resolved (p_inputs new_parser v \<noteq> None) v) parts\<rparr>)"
    using l t [of demo_nlp demo_print new_parser
        "fst (parse_log_step demo_nlp demo_print new_parser)"
        "snd (parse_log_step demo_nlp demo_print new_parser)", THEN conjunct2, THEN conjunct2, THEN conjunct1]
    by auto
  have 4: "\<exists>source iterator. source \<noteq> [] \<and> iterator \<noteq> [] \<and>
      view_step (p_store (snd (parse_foreach_step demo_nlp demo_loop new_parser)))
        forEach_template =
        (''forEach'', ForEachV \<lparr>fe_source = source, fe_as = iterator, fe_body = []\<rparr>)"
    using f t [of demo_nlp demo_loop new_parser
        "fst (parse_foreach_step demo_nlp demo_loop new_parser)"
        "snd (parse_foreach_step demo_nlp demo_loop new_parser)", THEN conjunct2, THEN conjunct2, THEN conjunct2]
    by auto
  have 5: "parse_assert_step demo_nlp demo_if_late new_parser = (None, new_parser)"
    using n t [of demo_nlp demo_if_late new_parser
        "fst (parse_assert_step demo_nlp demo_if_late new_parser)"
        "snd (parse_assert_step demo_nlp demo_if_late new_parser)", THEN conjunct2, THEN conjunct1]
    by (auto simp: prod_eq_iff)
  show ?thesis using 1 2 3 4 5 by blast
qed

section \<open>References to declared inputs (C4)\<close>

lemma process_sentences_append:
  "process_sentences nlp (xs @ ys) p = process_sentences nlp ys (process_sentences nlp xs p)"
  by (simp add: process_sentences_def)

lemma state_after_inputs:
  "(p_inputs (state_after nlp txt pre) v \<noteq> None) = list_ex (\<lambda>s'. declares nlp s' v) pre"
  using process_sentences_inputs
    [of nlp pre "new_parser\<lparr>p_function := generate_function_name (nlp txt)\<rparr>" v]
  by (simp add: state_after_def new_parser_def)

text \<open>
  C4: when parse, called on a new parser, reaches a sentence \<open>s\<close> of the text after the
  sentences \<open>pre\<close>, the set, assert and log extractors write, for every name \<open>v\<close> they
  extract as a value, the reference \<open>Get v\<close> if one of the sentences \<open>pre\<close> declares the
  input \<open>v\<close>, and the literal \<open>Lit v\<close> otherwise (also when only a later sentence declares it).
\<close>

theorem C4_reference_or_literal:
  "nlp txt = pre @ s # post \<longrightarrow>
   parse nlp txt new_parser =
     process_sentences nlp post (process_sentence nlp (state_after nlp txt pre) s)
   \<and> (\<forall>target v. set_scan nlp s = (Some target, Some v) \<and> target \<noteq> [] \<and> v \<noteq> [] \<longrightarrow>
        set_value (set_cell (p_store (snd (parse_set_step nlp s (state_after nlp txt pre))))) =
          resolved (list_ex (\<lambda>s'. declares nlp s' v) pre) v)
   \<and> (\<forall>c left op right.
        assert_scan nlp s = (c, Some left, Some op, Some right)
        \<and> left \<noteq> [] \<and> op \<noteq> [] \<and> right \<noteq> [] \<longrightarrow>
        cond_compare (assert_condition (assert_cell
          (p_store (snd (parse_assert_step nlp s (state_after nlp txt pre)))))) =
          \<lparr>c_left = resolved (list_ex (\<lambda>s'. declares nlp s' left) pre) left, c_op = op,
           c_right = resolved (list_ex (\<lambda>s'. declares nlp s' right) pre) right\<rparr>)
   \<and> (log_scan nlp s \<noteq> [] \<longrightarrow>
        log_message (log_cell (p_store (snd (parse_log_step nlp s (state_after nlp txt pre))))) =
          map (\<lambda>v. resolved (list_ex (\<lambda>s'. declares nlp s' v) pre) v) (log_scan nlp s))"
proof (intro impI conjI allI)
  assume "nlp txt = pre @ s # post"
  then show "parse nlp txt new_parser =
     process_sentences nlp post (process_sentence nlp (state_after nlp txt pre) s)"
    by (simp add: parse_def Let_def state_after_def process_sentences_def)
next
  fix target v
  assume "set_scan nlp s = (Some target, Some v) \<and> target \<noteq> [] \<and> v \<noteq> []"
  then show "set_value (set_cell (p_store (snd (parse_set_step nlp s (state_after nlp txt pre))))) =
          resolved (list_ex (\<lambda>s'. declares nlp s' v) pre) v"
    by (simp add: parse_set_step_Some state_after_inputs del: not_None_eq)
next
  fix c left op right
  assume "assert_scan nlp s = (c, Some left, Some op, Some right)
        \<and> left \<noteq> [] \<and> op \<noteq> [] \<and> right \<noteq> []"
  then show "cond_compare (assert_condition (assert_cell
          (p_store (snd (parse_assert_step nlp s (state_after nlp txt pre)))))) =
          \<lparr>c_left = resolved (list_ex (\<lambda>s'. declares nlp s' left) pre) left, c_op = op,
           c_right = resolved (list_ex (\<lambda>s'. declares nlp s' right) pre) right\<rparr>"
    by (simp add: parse_assert_step_Some state_after_inputs del: not_None_eq)
next
  assume "log_scan nlp s \<noteq> []"
  then show "log_message (log_cell (p_store (snd (parse_log_step nlp s (state_after nlp txt pre))))) =
          map (\<lambda>v. resolved (list_ex (\<lambda>s'. declares nlp s' v) pre) v) (log_scan nlp s)"
    by (simp add: parse_log_step_Some state_after_inputs del: not_None_eq)
qed

lemma demo_declares:
  "declares demo_nlp demo_input v = (v = ''beta'')"
  "declares demo_nlp demo_set_a v = False"
  "declares demo_nlp demo_set_b v = False"
  "declares demo_nlp demo_if v = False"
  by (auto simp: declares_def demo_scans) (simp_all add: demo_sentences string_ops)

theorem C4_reference_or_literal_witness:
  "set_value (set_cell (p_store (snd (parse_set_step demo_nlp demo_set_a
     (state_after demo_nlp text_sets []))))) = Lit ''beta''
   \<and> set_value (set_cell (p_store (snd (parse_set_step demo_nlp demo_set_b
     (state_after demo_nlp text_refs [demo_input]))))) = Get ''beta''
   \<and> cond_compare (assert_condition (assert_cell (p_store (snd (parse_assert_step demo_nlp demo_if
     (state_after demo_nlp text_refs [demo_input, demo_set_b])))))) =
       \<lparr>c_left = Get ''beta'', c_op = ''>'', c_right = Lit ''limit''\<rparr>
   \<and> log_message (log_cell (p_store (snd (parse_log_step demo_nlp demo_print_beta
     (state_after demo_nlp text_refs [demo_input, demo_set_b, demo_if]))))) = [Get ''beta'']"
proof -
  note t = C4_reference_or_literal
  have 1: "set_value (set_cell (p_store (snd (parse_set_step demo_nlp demo_set_a
     (state_after demo_nlp text_sets []))))) = Lit ''beta''"
    using t [of demo_nlp text_sets "[]" demo_set_a "[demo_input, demo_set_b]"]
    by (simp add: demo_nlp_texts demo_scans resolved_def)
  have 2: "set_value (set_cell (p_store (snd (parse_set_step demo_nlp demo_set_b
     (state_after demo_nlp text_refs [demo_input]))))) = Get ''beta''"
    using t [of demo_nlp text_refs "[demo_input]" demo_set_b "[demo_if, demo_print_beta]"]
    by (simp add: demo_nlp_texts demo_scans resolved_def demo_declares)
  have 3: "cond_compare (assert_condition (assert_cell (p_store (snd (parse_assert_step demo_nlp
     demo_if (state_after demo_nlp text_refs [demo_input, demo_set_b])))))) =
       \<lparr>c_left = Get ''beta'', c_op = ''>'', c_right = Lit ''limit''\<rparr>"
    using t [of demo_nlp text_refs "[demo_input, demo_set_b]" demo_if "[demo_print_beta]"]
    by (simp add: demo_nlp_texts demo_scans resolved_def demo_declares)
  have 4: "log_message (log_cell (p_store (snd (parse_log_step demo_nlp demo_print_beta
     (state_after demo_nlp text_refs [demo_input, demo_set_b, demo_if]))))) = [Get ''beta'']"
    using t [of demo_nlp text_refs "[demo_input, demo_set_b, demo_if]" demo_print_beta "[]"]
    by (simp add: demo_nlp_texts demo_scans resolved_def demo_declares)
  show ?thesis using 1 2 3 4 by blast
qed

section \<open>The order of cue and subject in an assert sentence (C3)\<close>




text \<open>
  Where the anchor and \<open>left\<close> come from: the anchor is the head surface of the last cue
  token so far, and \<open>left\<close> is resolved only by a nominal subject that stands after a
  cue token.
\<close>

lemma assert_fold_origin:
  "(\<forall>h. fst (foldl assert_token (None, None, None, None) ts) = Some h \<longrightarrow>
      (\<exists>pre c mid. ts = pre @ c # mid \<and> is_cue c \<and> (\<forall>t\<in>set mid. \<not> is_cue t)
         \<and> h = h_text (t_head c)))
   \<and> (fst (snd (foldl assert_token (None, None, None, None) ts)) \<noteq> None \<longrightarrow>
      (\<exists>pre c mid n post. ts = pre @ c # mid @ n # post \<and> is_cue c
         \<and> (\<forall>t\<in>set mid. \<not> is_cue t) \<and> \<not> is_cue n \<and> t_dep n = ''nsubj''
         \<and> h_text (t_head n) = h_text (t_head c)))"
proof (induction ts rule: rev_induct)
  case Nil
  then show ?case by simp
next
  case (snoc t ts)
  obtain cnd left op right where
    st: "foldl assert_token (None, None, None, None) ts = (cnd, left, op, right)"
    by (cases "foldl assert_token (None, None, None, None) ts") auto
  have ih1: "\<exists>pre c mid. ts = pre @ c # mid \<and> is_cue c \<and> (\<forall>t\<in>set mid. \<not> is_cue t)
         \<and> h = h_text (t_head c)" if "cnd = Some h" for h
    using snoc.IH st that by simp
  have ih2: "\<exists>pre c mid n post. ts = pre @ c # mid @ n # post \<and> is_cue c
         \<and> (\<forall>t\<in>set mid. \<not> is_cue t) \<and> \<not> is_cue n \<and> t_dep n = ''nsubj''
         \<and> h_text (t_head n) = h_text (t_head c)" if "left \<noteq> None"
    using snoc.IH st that by simp
  have keep: "\<exists>pre c mid n post. ts @ [t] = pre @ c # mid @ n # post \<and> is_cue c
         \<and> (\<forall>t\<in>set mid. \<not> is_cue t) \<and> \<not> is_cue n \<and> t_dep n = ''nsubj''
         \<and> h_text (t_head n) = h_text (t_head c)" if l: "left \<noteq> None"
  proof -
    obtain pre c mid n post where d: "ts = pre @ c # mid @ n # post" "is_cue c"
      "\<forall>t\<in>set mid. \<not> is_cue t" "\<not> is_cue n" "t_dep n = ''nsubj''"
      "h_text (t_head n) = h_text (t_head c)"
      using ih2 [OF l] by blast
    have "ts @ [t] = pre @ c # mid @ n # (post @ [t])" using d(1) by simp
    then show ?thesis using d(2-6) by blast
  qed
  show ?case
  proof (cases "is_cue t")
    case True
    then have new: "foldl assert_token (None, None, None, None) (ts @ [t]) =
        (Some (h_text (t_head t)), left, op, right)"
      by (simp add: st assert_token_def is_cue_def)
    have "ts @ [t] = ts @ t # []" by simp
    then have "\<exists>pre c mid. ts @ [t] = pre @ c # mid \<and> is_cue c \<and> (\<forall>t\<in>set mid. \<not> is_cue t)
         \<and> h_text (t_head t) = h_text (t_head c)"
      using True by fastforce
    then show ?thesis using new keep by simp
  next
    case False
    show ?thesis
    proof (cases "t_dep t = ''nsubj'' \<and> Some (h_text (t_head t)) = cnd")
      case True
      then have new: "foldl assert_token (None, None, None, None) (ts @ [t]) =
          (cnd, Some (t_text t), op, right)"
        using False by (simp add: st assert_token_def is_cue_def)
      obtain pre c mid where d: "ts = pre @ c # mid" "is_cue c" "\<forall>t\<in>set mid. \<not> is_cue t"
        "h_text (t_head t) = h_text (t_head c)"
        using ih1 [of "h_text (t_head t)"] True by auto
      have a: "ts @ [t] = pre @ c # mid @ t # []" using d(1) by simp
      have b: "ts @ [t] = pre @ c # (mid @ [t])" using d(1) by simp
      have 1: "\<exists>pre c mid n post. ts @ [t] = pre @ c # mid @ n # post \<and> is_cue c
         \<and> (\<forall>t\<in>set mid. \<not> is_cue t) \<and> \<not> is_cue n \<and> t_dep n = ''nsubj''
         \<and> h_text (t_head n) = h_text (t_head c)"
        using a d(2-4) False True by blast
      have 2: "\<exists>pre c' mid. ts @ [t] = pre @ c' # mid \<and> is_cue c' \<and> (\<forall>t\<in>set mid. \<not> is_cue t)
         \<and> h_text (t_head c) = h_text (t_head c')"
        using b d(2,3) False by fastforce
      show ?thesis using new 1 2 True d(4) by auto
    next
      case nomatch: False
      have new: "fst (foldl assert_token (None, None, None, None) (ts @ [t])) = cnd
          \<and> fst (snd (foldl assert_token (None, None, None, None) (ts @ [t]))) = left"
        using False nomatch by (auto simp: st assert_token_def is_cue_def)
      have 2: "\<exists>pre c mid. ts @ [t] = pre @ c # mid \<and> is_cue c \<and> (\<forall>t\<in>set mid. \<not> is_cue t)
         \<and> h = h_text (t_head c)" if k: "cnd = Some h" for h
      proof -
        obtain pre c mid where d: "ts = pre @ c # mid" "is_cue c" "\<forall>t\<in>set mid. \<not> is_cue t"
          "h = h_text (t_head c)"
          using ih1 [OF k] by blast
        have "ts @ [t] = pre @ c # (mid @ [t])" using d(1) by simp
        moreover have "\<forall>u\<in>set (mid @ [t]). \<not> is_cue u" using d(3) False by simp
        ultimately show ?thesis using d(2,4) by blast
      qed
      show ?thesis using new 2 keep by auto
    qed
  qed
qed

lemma parse_assert_step_needs_cue_before_subject:
  assumes "fst (parse_assert_step nlp s p) \<noteq> None"
  shows "\<exists>pre c mid n post. doc_tokens (nlp (s_text s)) = pre @ c # mid @ n # post \<and> is_cue c
         \<and> (\<forall>t\<in>set mid. \<not> is_cue t) \<and> \<not> is_cue n \<and> t_dep n = ''nsubj''
         \<and> h_text (t_head n) = h_text (t_head c)"
proof -
  have "\<exists>c left op right. assert_scan nlp s = (c, Some left, Some op, Some right)
        \<and> left \<noteq> [] \<and> op \<noteq> [] \<and> right \<noteq> []"
    using assms parse_assert_step_None [of nlp s p] by fastforce
  then have "fst (snd (assert_scan nlp s)) \<noteq> None" by auto
  then show ?thesis
    unfolding assert_scan_def using assert_fold_origin [of "doc_tokens (nlp (s_text s))"] by blast
qed

section \<open>Steps of the same kind share their payload (C1)\<close>

text \<open>
  C1 does not hold of the code. For the text \<open>text_sets\<close> (a set sentence, an input
  declaration, a second set sentence) the extractor of the first sentence writes target
  "point" and the literal value "beta"; after parse has returned, both set steps of the
  schema hold the fields that the extractor of the last set sentence wrote, target "level"
  and the reference to "beta": the shallow copy of the template shares the payload
  dictionary.
\<close>

theorem C1_shared_payload:
  "view_step (p_store (snd (parse_set_step demo_nlp demo_set_a (state_after demo_nlp text_sets []))))
       set_template =
     (''set'', SetV \<lparr>set_target = ''point'', set_value = Lit ''beta''\<rparr>)
   \<and> sch_steps (schema_of (parse demo_nlp text_sets new_parser)) =
     [(''set'', SetV \<lparr>set_target = ''level'', set_value = Get ''beta''\<rparr>),
      (''set'', SetV \<lparr>set_target = ''level'', set_value = Get ''beta''\<rparr>)]"
proof -
  have e: "p_inputs (state_after demo_nlp text_sets []) = Map.empty"
    by (simp add: state_after_def process_sentences_def new_parser_def)
  have 1: "view_step (p_store (snd (parse_set_step demo_nlp demo_set_a
       (state_after demo_nlp text_sets [])))) set_template =
     (''set'', SetV \<lparr>set_target = ''point'', set_value = Lit ''beta''\<rparr>)"
    by (simp add: parse_set_step_Some [OF demo_scans(3)] view_templates resolved_def e)
  have 2: "sch_steps (schema_of (parse demo_nlp text_sets new_parser)) =
     [(''set'', SetV \<lparr>set_target = ''level'', set_value = Get ''beta''\<rparr>),
      (''set'', SetV \<lparr>set_target = ''level'', set_value = Get ''beta''\<rparr>)]"
    by (simp add: schema_of_def parse_def Let_def demo_nlp_texts process_sentences_def
        demo_routes parse_set_step_Some [OF demo_scans(3)] parse_set_step_Some [OF demo_scans(4)]
        append_step_def parse_input_def demo_scans view_templates resolved_def new_parser_def)
  show ?thesis using 1 2 by simp
qed

end
